theory Spec2Isabelle
  imports Complex_Main
begin

section \<open>Readout confusion inversion (mitiq/rem/rci.py)\<close>

text \<open>
  A shallow embedding of \<^verbatim>\<open>execute_with_rci\<close>, \<^verbatim>\<open>mitigate_executor\<close> and
  \<^verbatim>\<open>rci_decorator\<close>. Exceptions are values of a sum type, the calls to the
  collaborators that sample (calibration, executor, state-vector sampling) thread an
  explicit world state, and every such call is recorded in a trace of events, so that the
  order of the effects of one call can be stated.
\<close>

subsection \<open>Errors, events, arrays\<close>

datatype error =
    AssertionError
  | ValueError
  | TypeError
  | IndexError
  | AttributeError
  | ExternalError

datatype event = Notice | Calibration | Execution | Sampling

text \<open>
  An array of measured digits after \<^verbatim>\<open>squeeze\<close>: numpy keeps the number of axes in the
  value, nested lists keep it in the constructor.
\<close>

datatype ndarray =
    Arr0 nat
  | Arr1 "nat list"
  | Arr2 "nat list list"
  | Arr3 "nat list list list"

type_synonym matrix = "real list list"

text \<open>
  Modelled from the spec: \<^verbatim>\<open>MeasurementResult\<close> (mitiq._typing, not among the sources):
  "an ordered sequence of shots, each shot a fixed-length bit vector over the measured
  qubit indices, plus the ordered set of qubit indices it corresponds to".
\<close>

record measurement_result =
  result :: "nat list list"
  qubit_indices :: "nat list"

definition is_bit_vector :: "nat \<Rightarrow> nat list \<Rightarrow> bool" where
  "is_bit_vector k shot = (length shot = k \<and> list_all (\<lambda>b. b < 2) shot)"

text \<open>
  Modelled from the spec: the constructor \<^verbatim>\<open>MeasurementResult(result, qubit_indices)\<close>.
  It accepts a sequence of shots, each a bit vector over the given qubit indices; an array
  with another number of axes is not a sequence of bit vectors.
\<close>

definition MeasurementResult :: "ndarray \<Rightarrow> nat list \<Rightarrow> error + measurement_result" where
  "MeasurementResult a idx =
     (case a of
        Arr2 rows \<Rightarrow>
          if list_all (is_bit_vector (length idx)) rows
          then Inr \<lparr>result = rows, qubit_indices = idx\<rparr>
          else Inl ValueError
      | _ \<Rightarrow> Inl TypeError)"

text \<open>What an executor hands back: a measurement result, or anything else (a float, say).\<close>

datatype exec_value = MeasurementValue measurement_result | OtherValue

text \<open>
  A Python function object: the attributes that \<^verbatim>\<open>functools.wraps\<close> copies, and the
  function itself.
\<close>

record 'f pyfunction =
  fn_module :: string
  fn_name :: string
  fn_qualname :: string
  fn_doc :: "string option"
  fn_call :: 'f

subsection \<open>Effects\<close>

text \<open>
  An action runs on the world state \<open>'s\<close> of the collaborators and on the trace, and
  returns an error or a value, as a raise or a return would.
\<close>

type_synonym ('s, 'a) action = "'s \<times> event list \<Rightarrow> (error + 'a) \<times> 's \<times> event list"

definition return_action :: "'a \<Rightarrow> ('s, 'a) action" where
  "return_action x = (\<lambda>st. (Inr x, st))"

definition lift_result :: "error + 'a \<Rightarrow> ('s, 'a) action" where
  "lift_result r = (\<lambda>st. (r, st))"

definition bind_action :: "('s, 'a) action \<Rightarrow> ('a \<Rightarrow> ('s, 'b) action) \<Rightarrow> ('s, 'b) action" where
  "bind_action m f =
     (\<lambda>st. case m st of (Inl e, st') \<Rightarrow> (Inl e, st') | (Inr x, st') \<Rightarrow> f x st')"

text \<open>\<^verbatim>\<open>print(...)\<close>: an event and nothing else.\<close>

definition emit :: "event \<Rightarrow> ('s, unit) action" where
  "emit ev = (\<lambda>(s, tr). (Inr (), (s, tr @ [ev])))"

text \<open>A call to a collaborator: the event is recorded when the call is made.\<close>

definition perform :: "event \<Rightarrow> ('s \<Rightarrow> (error + 'a) \<times> 's) \<Rightarrow> ('s, 'a) action" where
  "perform ev call = (\<lambda>(s, tr). case call s of (r, s') \<Rightarrow> (r, (s', tr @ [ev])))"

text \<open>
  The collaborators that are not part of the module: the circuit's qubits, the calibration
  (\<^verbatim>\<open>measure_confusion_matrix(NoisySingleQubitReadoutSampler(p0, p1), ...)\<close> followed by
  \<^verbatim>\<open>correction_matrix()\<close>) and \<^verbatim>\<open>sample_state_vector\<close>, which returns the one
  repetition it draws.
\<close>

record ('c, 's) env =
  all_qubits :: "'c \<Rightarrow> nat list"
  measure_correction_matrix :: "real \<Rightarrow> real \<Rightarrow> nat list \<Rightarrow> 's \<Rightarrow> (error + matrix) \<times> 's"
  sample_state_vector :: "real list \<Rightarrow> nat list \<Rightarrow> 's \<Rightarrow> (error + nat list) \<times> 's"

type_synonym ('c, 's) executor = "('c \<Rightarrow> 's \<Rightarrow> (error + exec_value) \<times> 's) pyfunction"

type_synonym observable = "measurement_result \<Rightarrow> error + real"

subsection \<open>The numpy and cirq operations of the correction stage\<close>

definition one_hot :: "nat \<Rightarrow> nat \<Rightarrow> real list" where
  "one_hot d k = map (\<lambda>i. if i = k then 1 else 0) [0..<d]"

text \<open>Big-endian: the first digit is the most significant one.\<close>

definition big_endian_bits_to_int :: "nat list \<Rightarrow> nat" where
  "big_endian_bits_to_int bits = foldl (\<lambda>acc b. 2 * acc + b) 0 bits"

text \<open>
  \<^verbatim>\<open>to_valid_state_vector(state_rep, num_qubits=n)\<close> on a one-dimensional integer array:
  an array of \<open>2 ^ n\<close> entries is taken as amplitudes and must be normalised, an array of
  \<open>n\<close> entries as the digits of a computational basis state, anything else is refused.
\<close>

definition to_valid_state_vector :: "nat \<Rightarrow> nat list \<Rightarrow> error + real list" where
  "to_valid_state_vector n state_rep =
     (if length state_rep = 2 ^ n then
        (if (\<Sum>a\<leftarrow>state_rep. a * a) = 1 then Inr (map real state_rep) else Inl ValueError)
      else if length state_rep = n then
        (if list_all (\<lambda>b. b < 2) state_rep
         then Inr (one_hot (2 ^ n) (big_endian_bits_to_int state_rep))
         else Inl ValueError)
      else Inl ValueError)"

fun sequence_results :: "(error + 'a) list \<Rightarrow> error + 'a list" where
  "sequence_results [] = Inr []"
| "sequence_results (r # rs) =
     (case r of
        Inl e \<Rightarrow> Inl e
      | Inr x \<Rightarrow> (case sequence_results rs of Inl e \<Rightarrow> Inl e | Inr xs \<Rightarrow> Inr (x # xs)))"

text \<open>
  \<^verbatim>\<open>np.apply_along_axis(f, 1, arr)\<close> for a pure \<open>f\<close>: it refuses an array with no row.
\<close>

definition apply_along_axis :: "('a list \<Rightarrow> error + 'b) \<Rightarrow> 'a list list \<Rightarrow> error + 'b list" where
  "apply_along_axis f arr =
     (if arr = [] then Inl ValueError else sequence_results (map f arr))"

definition ncols :: "'a list list \<Rightarrow> nat" where
  "ncols m = (case m of [] \<Rightarrow> 0 | r # _ \<Rightarrow> length r)"

text \<open>\<^verbatim>\<open>.T\<close> of a two-dimensional array.\<close>

definition transpose_T :: "'a list list \<Rightarrow> 'a list list" where
  "transpose_T m = map (\<lambda>j. map (\<lambda>r. r ! j) m) [0..<ncols m]"

definition dot :: "real list \<Rightarrow> real list \<Rightarrow> real" where
  "dot u v = (\<Sum>(x, y)\<leftarrow>zip u v. x * y)"

text \<open>\<^verbatim>\<open>a @ b\<close>: the inner dimensions must agree.\<close>

definition matmul :: "matrix \<Rightarrow> matrix \<Rightarrow> error + matrix" where
  "matmul a b =
     (if ncols a \<noteq> length b then Inl ValueError
      else Inr (map (\<lambda>row. map (dot row) (transpose_T b)) a))"

text \<open>
  \<^verbatim>\<open>.squeeze()\<close> of an array of shape \<open>(s, r, k)\<close>: every axis of length one goes.
\<close>

definition squeeze :: "nat list list list \<Rightarrow> ndarray" where
  "squeeze xs =
     (let s = length xs; r = ncols xs; k = ncols (concat xs) in
      if s = 1 then
        (if r = 1 then (if k = 1 then Arr0 (hd (hd (hd xs))) else Arr1 (hd (hd xs)))
         else (if k = 1 then Arr1 (map hd (hd xs)) else Arr2 (hd xs)))
      else if r = 1 then (if k = 1 then Arr1 (map (hd \<circ> hd) xs) else Arr2 (map hd xs))
      else if k = 1 then Arr2 (map (map hd) xs)
      else Arr3 xs)"

text \<open>
  \<^verbatim>\<open>np.apply_along_axis(f, 1, arr)\<close> for an \<open>f\<close> that samples: the rows are
  visited in order, each result keeps the shape \<open>(1, k)\<close> that
  \<^verbatim>\<open>sample_state_vector\<close> gives to its single repetition.
\<close>

fun sample_rows ::
  "(real list \<Rightarrow> 's \<Rightarrow> (error + nat list) \<times> 's) \<Rightarrow> real list list \<Rightarrow> ('s, nat list list list) action"
where
  "sample_rows f [] = return_action []"
| "sample_rows f (v # vs) =
     bind_action (perform Sampling (f v)) (\<lambda>sample.
     bind_action (sample_rows f vs) (\<lambda>rest.
     return_action ([sample] # rest)))"

definition apply_along_axis_sampling ::
  "(real list \<Rightarrow> 's \<Rightarrow> (error + nat list) \<times> 's) \<Rightarrow> real list list \<Rightarrow> ('s, nat list list list) action"
where
  "apply_along_axis_sampling f arr =
     (if arr = [] then lift_result (Inl ValueError) else sample_rows f arr)"

subsection \<open>execute_with_rci\<close>

text \<open>
  Lines 74 to 82: the inverse confusion matrix is the one supplied, or else the notice is
  printed and the calibration is run.
\<close>

definition inverse_confusion_matrix_stage ::
  "('c, 's) env \<Rightarrow> nat list \<Rightarrow> matrix option \<Rightarrow> real \<Rightarrow> real \<Rightarrow> ('s, matrix) action"
where
  "inverse_confusion_matrix_stage env qubits inverse_confusion_matrix p0 p1 =
     (case inverse_confusion_matrix of
        None \<Rightarrow>
          bind_action (emit Notice) (\<lambda>_.
          perform Calibration (measure_correction_matrix env p0 p1 qubits))
      | Some m \<Rightarrow> return_action m)"

text \<open>Lines 88 to 94: one state vector for each shot.\<close>

definition noisy_state_vectors :: "nat \<Rightarrow> measurement_result \<Rightarrow> error + matrix" where
  "noisy_state_vectors num_qubits noisy_result =
     apply_along_axis (to_valid_state_vector num_qubits) (result noisy_result)"

text \<open>Lines 96 to 98: \<^verbatim>\<open>(inverse_confusion_matrix @ noisy_state_vectors.T).T\<close>.\<close>

definition adjusted_state_vectors :: "matrix \<Rightarrow> matrix \<Rightarrow> error + matrix" where
  "adjusted_state_vectors inverse_confusion_matrix vectors =
     (case matmul inverse_confusion_matrix (transpose_T vectors) of
        Inl e \<Rightarrow> Inl e
      | Inr product \<Rightarrow> Inr (transpose_T product))"

text \<open>Lines 100 to 106: one sample for each adjusted vector, then \<^verbatim>\<open>squeeze\<close>.\<close>

definition adjusted_result ::
  "('c, 's) env \<Rightarrow> nat list \<Rightarrow> matrix \<Rightarrow> ('s, ndarray) action"
where
  "adjusted_result env indices vectors =
     bind_action
       (apply_along_axis_sampling (\<lambda>v. sample_state_vector env v indices) vectors)
       (\<lambda>samples. return_action (squeeze samples))"

text \<open>Line 109: \<^verbatim>\<open>observable._expectation_from_measurements([result])\<close>.\<close>

definition expectation_from_measurements ::
  "observable option \<Rightarrow> measurement_result \<Rightarrow> error + real"
where
  "expectation_from_measurements observable res =
     (case observable of None \<Rightarrow> Inl AttributeError | Some obs \<Rightarrow> obs res)"

text \<open>
  Lines 84 to 108, up to the corrected measurement result: the executor is run on the
  circuit, its value must be a measurement result, and the correction follows.
\<close>

definition corrected_result ::
  "('c, 's) env \<Rightarrow> 'c \<Rightarrow> ('c, 's) executor \<Rightarrow> nat list \<Rightarrow> matrix
     \<Rightarrow> ('s, measurement_result \<times> measurement_result) action"
where
  "corrected_result env circuit executor qubits inverse_confusion_matrix =
     bind_action (perform Execution (fn_call executor circuit)) (\<lambda>value.
     bind_action
       (lift_result
          (case value of
             MeasurementValue r \<Rightarrow> Inr r
           | OtherValue \<Rightarrow> Inl AssertionError)) (\<lambda>noisy_result.
     bind_action (lift_result (noisy_state_vectors (length qubits) noisy_result)) (\<lambda>vectors.
     bind_action
       (lift_result (adjusted_state_vectors inverse_confusion_matrix vectors)) (\<lambda>adjusted.
     bind_action (adjusted_result env (qubit_indices noisy_result) adjusted) (\<lambda>arr.
     bind_action
       (lift_result (MeasurementResult arr (qubit_indices noisy_result))) (\<lambda>res.
     return_action (noisy_result, res)))))))"

definition execute_with_rci ::
  "('c, 's) env \<Rightarrow> 'c \<Rightarrow> ('c, 's) executor \<Rightarrow> observable option \<Rightarrow> matrix option
     \<Rightarrow> real \<Rightarrow> real \<Rightarrow> ('s, real) action"
where
  "execute_with_rci env circuit executor observable inverse_confusion_matrix p0 p1 =
     (let qubits = all_qubits env circuit in
      bind_action
        (inverse_confusion_matrix_stage env qubits inverse_confusion_matrix p0 p1) (\<lambda>m.
      bind_action (corrected_result env circuit executor qubits m) (\<lambda>(noisy_result, res).
      lift_result (expectation_from_measurements observable res))))"

text \<open>
  The unmitigated value, as \<^verbatim>\<open>mitiq.raw.execute\<close> computes it in the tests: the
  observable's expectation over the executor's own measurement result.
\<close>

definition raw_execute ::
  "'c \<Rightarrow> ('c, 's) executor \<Rightarrow> observable option \<Rightarrow> ('s, real) action"
where
  "raw_execute circuit executor observable =
     bind_action (perform Execution (fn_call executor circuit)) (\<lambda>value.
     bind_action
       (lift_result
          (case value of
             MeasurementValue r \<Rightarrow> Inr r
           | OtherValue \<Rightarrow> Inl AssertionError)) (\<lambda>noisy_result.
     lift_result (expectation_from_measurements observable noisy_result)))"

subsection \<open>mitigate_executor and rci_decorator\<close>

text \<open>
  \<^verbatim>\<open>functools.wraps(wrapped)\<close> applied to \<open>wrapper\<close>: the four attributes are
  assigned from the wrapped function.
\<close>

definition wraps :: "'f pyfunction \<Rightarrow> 'g pyfunction \<Rightarrow> 'g pyfunction" where
  "wraps wrapped wrapper =
     wrapper\<lparr>fn_module := fn_module wrapped, fn_name := fn_name wrapped,
             fn_qualname := fn_qualname wrapped, fn_doc := fn_doc wrapped\<rparr>"

definition mitigate_executor ::
  "('c, 's) env \<Rightarrow> ('c, 's) executor \<Rightarrow> observable option \<Rightarrow> matrix option \<Rightarrow> real \<Rightarrow> real
     \<Rightarrow> ('c \<Rightarrow> ('s, real) action) pyfunction"
where
  "mitigate_executor env executor observable inverse_confusion_matrix p0 p1 =
     wraps executor
       \<lparr>fn_module = ''mitiq.rem.rci'', fn_name = ''new_executor'',
        fn_qualname = ''mitigate_executor.<locals>.new_executor'', fn_doc = None,
        fn_call = (\<lambda>qp.
          execute_with_rci env qp executor observable inverse_confusion_matrix p0 p1)\<rparr>"

text \<open>
  The first argument of \<^verbatim>\<open>rci_decorator\<close>: nothing, an observable, or, when the
  decorator is written without parentheses, the function being decorated.
\<close>

datatype ('c, 's) decorator_argument =
    NoneArgument
  | ObservableArgument observable
  | FunctionArgument "('c, 's) executor"

fun callable :: "('c, 's) decorator_argument \<Rightarrow> bool" where
  "callable (FunctionArgument f) = True"
| "callable _ = False"

fun as_observable :: "('c, 's) decorator_argument \<Rightarrow> observable option" where
  "as_observable (ObservableArgument obs) = Some obs"
| "as_observable _ = None"

definition rci_decorator ::
  "('c, 's) env \<Rightarrow> ('c, 's) decorator_argument \<Rightarrow> matrix option \<Rightarrow> real \<Rightarrow> real
     \<Rightarrow> error + (('c, 's) executor \<Rightarrow> ('c \<Rightarrow> ('s, real) action) pyfunction)"
where
  "rci_decorator env observable inverse_confusion_matrix p0 p1 =
     (if callable observable then Inl TypeError
      else Inr (\<lambda>executor.
        mitigate_executor env executor (as_observable observable)
          inverse_confusion_matrix p0 p1))"

subsection \<open>The specification's reading of the correction\<close>

text \<open>
  The spec's words for the batch transform: the inverse matrix applied to one row, that is
  the vector of the dot products of the matrix's rows with it.
\<close>

definition mat_vec :: "matrix \<Rightarrow> real list \<Rightarrow> real list" where
  "mat_vec m v = map (\<lambda>row. dot row v) m"

definition identity_matrix :: "nat \<Rightarrow> matrix" where
  "identity_matrix d = map (one_hot d) [0..<d]"

text \<open>The anti-diagonal permutation matrix: row \<open>i\<close> has its one in column \<open>d - 1 - i\<close>.\<close>

definition antidiagonal_matrix :: "nat \<Rightarrow> matrix" where
  "antidiagonal_matrix d = map (\<lambda>i. one_hot d (d - 1 - i)) [0..<d]"

subsection \<open>Collaborators of the tests\<close>

text \<open>
  The digits of a basis state, most significant first, as
  \<^verbatim>\<open>big_endian_int_to_digits\<close> returns them.
\<close>

definition big_endian_int_to_digits :: "nat \<Rightarrow> nat \<Rightarrow> nat list" where
  "big_endian_int_to_digits m j = map (\<lambda>i. (j div 2 ^ (m - 1 - i)) mod 2) [0..<m]"

text \<open>
  A sampler that is deterministic: it measures the first basis state of non-zero weight.
  On a basis state every sampler returns this; the world state counts the calls. As the
  sampler of the library does, it refuses a vector whose length is no power of two and an
  index out of range, returns at once when no qubit is measured, and refuses a repeated
  index.
\<close>

definition basis_sampler :: "real list \<Rightarrow> nat list \<Rightarrow> nat \<Rightarrow> (error + nat list) \<times> nat" where
  "basis_sampler v indices s =
     (case find (\<lambda>m. 2 ^ m = length v) [0..<Suc (length v)] of
        None \<Rightarrow> (Inl ValueError, Suc s)
      | Some m \<Rightarrow>
          if \<not> list_all (\<lambda>i. i < m) indices then (Inl IndexError, Suc s)
          else if indices = [] then (Inr [], Suc s)
          else if \<not> distinct indices then (Inl ValueError, Suc s)
          else
            (case find (\<lambda>j. v ! j \<noteq> 0) [0..<length v] of
               None \<Rightarrow> (Inl ValueError, Suc s)
             | Some j \<Rightarrow> (Inr (map (\<lambda>i. big_endian_int_to_digits m j ! i) indices), Suc s)))"

text \<open>A calibration that finds no readout error at all.\<close>

definition ideal_calibration ::
  "real \<Rightarrow> real \<Rightarrow> nat list \<Rightarrow> nat \<Rightarrow> (error + matrix) \<times> nat"
where
  "ideal_calibration p0 p1 qubits s = (Inr (identity_matrix (2 ^ length qubits)), Suc s)"

text \<open>A circuit of the tests is given by the list of its qubits.\<close>

definition test_env :: "(nat list, nat) env" where
  "test_env =
     \<lparr>all_qubits = (\<lambda>c. c), measure_correction_matrix = ideal_calibration,
      sample_state_vector = basis_sampler\<rparr>"

text \<open>An executor that returns the same shots on every run.\<close>

definition fixed_executor :: "nat list list \<Rightarrow> nat list \<Rightarrow> (nat list, nat) executor" where
  "fixed_executor shots indices =
     \<lparr>fn_module = ''test_rem'', fn_name = ''first_executor'',
      fn_qualname = ''test_doc_is_preserved.<locals>.first_executor'',
      fn_doc = Some ''Doc of the original executor.'',
      fn_call = (\<lambda>c s.
        (Inr (MeasurementValue \<lparr>result = shots, qubit_indices = indices\<rparr>), Suc s))\<rparr>"

text \<open>
  Modelled from the spec: the observable \<open>Z\<otimes>I + I\<otimes>Z\<close> of the tests (mitiq.observable,
  not among the sources): "scalar weighted average of an observable's eigenvalues under
  the measured state distribution". The eigenvalue of \<open>Z\<close> on a measured bit \<open>b\<close> is
  \<open>(-1) ^ b\<close>; the column of a qubit is its position among the qubit indices.
\<close>

definition z_expectation :: "nat \<Rightarrow> measurement_result \<Rightarrow> real" where
  "z_expectation q res =
     (\<Sum>shot\<leftarrow>result res. (- 1) ^ (shot ! length (takeWhile (\<lambda>i. i \<noteq> q) (qubit_indices res))))
       / real (length (result res))"

definition observable_ZI_IZ :: observable where
  "observable_ZI_IZ res =
     (if 0 \<in> set (qubit_indices res) \<and> 1 \<in> set (qubit_indices res) \<and> result res \<noteq> []
      then Inr (z_expectation 0 res + z_expectation 1 res)
      else Inl ValueError)"

text \<open>The executor of the tests that flips every bit it measures returns these shots.\<close>

definition flip_bits :: "nat list \<Rightarrow> nat list" where
  "flip_bits shot = map (\<lambda>b. 1 - b) shot"

text \<open>
  What \<^verbatim>\<open>sample_state_vector\<close> does on a basis state, whatever its random
  choices: all the weight is on one index, whose digits at the measured positions are
  returned. The positions are in range and distinct; the sampler refuses any others.
\<close>

definition basis_faithful ::
  "(real list \<Rightarrow> nat list \<Rightarrow> 's \<Rightarrow> (error + nat list) \<times> 's) \<Rightarrow> bool" where
  "basis_faithful sampler =
     (\<forall>m j indices s.
        j < 2 ^ m \<and> list_all (\<lambda>i. i < m) indices \<and> distinct indices \<longrightarrow>
        fst (sampler (one_hot (2 ^ m) j) indices s)
          = Inr (map (\<lambda>i. big_endian_int_to_digits m j ! i) indices))"

section \<open>Properties\<close>

subsection \<open>Unfolding the stages\<close>

lemma execute_with_rci_unfold:
  "execute_with_rci env circuit executor observable icm p0 p1 st =
     (case inverse_confusion_matrix_stage env (all_qubits env circuit) icm p0 p1 st of
        (Inl e, st1) \<Rightarrow> (Inl e, st1)
      | (Inr m, st1) \<Rightarrow>
          (case corrected_result env circuit executor (all_qubits env circuit) m st1 of
             (Inl e, st2) \<Rightarrow> (Inl e, st2)
           | (Inr (nr, res), st2) \<Rightarrow> (expectation_from_measurements observable res, st2)))"
  by (simp add: execute_with_rci_def Let_def bind_action_def lift_result_def
      split: prod.splits sum.splits)

lemma matrix_stage_none:
  "inverse_confusion_matrix_stage env qubits None p0 p1 (s, tr) =
     (case measure_correction_matrix env p0 p1 qubits s of
        (r, s') \<Rightarrow> (r, s', tr @ [Notice, Calibration]))"
  by (simp add: inverse_confusion_matrix_stage_def bind_action_def emit_def perform_def
      split: prod.splits)

lemma matrix_stage_some:
  "inverse_confusion_matrix_stage env qubits (Some m) p0 p1 st = (Inr m, st)"
  by (simp add: inverse_confusion_matrix_stage_def return_action_def)

subsection \<open>The trace of one call\<close>

lemma sample_rows_trace:
  "sample_rows f vs (s, tr) = (r, s', tr') \<Longrightarrow> \<exists>n. tr' = tr @ replicate n Sampling"
proof (induction vs arbitrary: s tr r s' tr')
  case Nil
  then show ?case by (simp add: return_action_def)
next
  case (Cons v vs)
  obtain r1 s1 where f: "f v s = (r1, s1)" by (cases "f v s")
  show ?case
  proof (cases r1)
    case (Inl e)
    with Cons.prems f have "tr' = tr @ [Sampling]"
      by (simp add: bind_action_def perform_def)
    then have "tr' = tr @ replicate 1 Sampling" by simp
    then show ?thesis by blast
  next
    case (Inr smp)
    obtain r2 s2 tr2 where rec: "sample_rows f vs (s1, tr @ [Sampling]) = (r2, s2, tr2)"
      by (cases "sample_rows f vs (s1, tr @ [Sampling])") auto
    from Cons.IH[OF rec] obtain n where n: "tr2 = (tr @ [Sampling]) @ replicate n Sampling" by blast
    from Cons.prems f Inr rec have "tr' = tr2"
      by (cases r2) (simp_all add: bind_action_def perform_def return_action_def)
    with n have "tr' = tr @ replicate (Suc n) Sampling" by simp
    then show ?thesis by blast
  qed
qed

lemma adjusted_result_trace:
  "adjusted_result env idx vs (s, tr) = (r, s', tr') \<Longrightarrow> \<exists>n. tr' = tr @ replicate n Sampling"
proof -
  assume a: "adjusted_result env idx vs (s, tr) = (r, s', tr')"
  show ?thesis
  proof (cases "vs = []")
    case True
    with a have "tr' = tr @ replicate 0 Sampling"
      by (simp add: adjusted_result_def apply_along_axis_sampling_def bind_action_def lift_result_def)
    then show ?thesis by blast
  next
    case False
    obtain r2 s2 tr2 where rec:
      "sample_rows (\<lambda>v. sample_state_vector env v idx) vs (s, tr) = (r2, s2, tr2)"
      by (cases "sample_rows (\<lambda>v. sample_state_vector env v idx) vs (s, tr)") auto
    from a False rec have "tr' = tr2"
      by (cases r2) (simp_all add: adjusted_result_def apply_along_axis_sampling_def bind_action_def return_action_def)
    with sample_rows_trace[OF rec] show ?thesis by simp
  qed
qed

lemma corrected_result_trace:
  assumes "corrected_result env circuit executor qubits m (s, tr) = (r, s', tr')"
  shows "\<exists>n. tr' = tr @ Execution # replicate n Sampling"
proof -
  obtain v s1 where ex: "fn_call executor circuit s = (v, s1)" by (cases "fn_call executor circuit s")
  have stop: "tr' = tr @ [Execution] \<Longrightarrow> ?thesis"
  proof -
    assume "tr' = tr @ [Execution]"
    then have "tr' = tr @ Execution # replicate 0 Sampling" by simp
    then show ?thesis by blast
  qed
  show ?thesis
  proof (cases v)
    case (Inl e)
    with assms ex show ?thesis
      by (intro stop) (simp add: corrected_result_def bind_action_def perform_def)
  next
    case (Inr val)
    show ?thesis
    proof (cases val)
      case OtherValue
      with assms ex Inr show ?thesis
        by (intro stop) (simp add: corrected_result_def bind_action_def perform_def lift_result_def)
    next
      case (MeasurementValue nr)
      show ?thesis
      proof (cases "noisy_state_vectors (length qubits) nr")
        case (Inl e)
        with assms ex Inr MeasurementValue show ?thesis
          by (intro stop) (simp add: corrected_result_def bind_action_def perform_def lift_result_def)
      next
        case V: (Inr V)
        show ?thesis
        proof (cases "adjusted_state_vectors m V")
          case (Inl e)
          with assms ex Inr MeasurementValue V show ?thesis
            by (intro stop) (simp add: corrected_result_def bind_action_def perform_def lift_result_def)
        next
          case A: (Inr A)
          obtain r2 s2 tr2 where rec:
            "adjusted_result env (qubit_indices nr) A (s1, tr @ [Execution]) = (r2, s2, tr2)"
            by (cases "adjusted_result env (qubit_indices nr) A (s1, tr @ [Execution])") auto
          from assms ex Inr MeasurementValue V A rec have "tr' = tr2"
            by (cases r2)
               (auto simp add: corrected_result_def bind_action_def perform_def lift_result_def
                  return_action_def split: sum.splits)
          with adjusted_result_trace[OF rec] show ?thesis by simp
        qed
      qed
    qed
  qed
qed

lemma test_run_without_matrix:
  "execute_with_rci test_env [0, 1] (fixed_executor [[0, 1], [0, 1]] [0, 1])
     (Some observable_ZI_IZ) None (1 / 100) (1 / 100) (0, [])
   = (Inr 0, 4, [Notice, Calibration, Execution, Sampling, Sampling])"
  by code_simp

lemma test_corrected_result:
  "corrected_result test_env [0, 1] (fixed_executor [[0, 1], [1, 1], [1, 0]] [0, 1]) [0, 1]
     (antidiagonal_matrix 4) (0, [])
   = (Inr (\<lparr>result = [[0, 1], [1, 1], [1, 0]], qubit_indices = [0, 1]\<rparr>,
           \<lparr>result = [[1, 0], [0, 0], [0, 1]], qubit_indices = [0, 1]\<rparr>),
      4, [Execution, Sampling, Sampling, Sampling])"
  by code_simp

subsection \<open>Calibration only when the matrix is absent\<close>

text \<open>
  The trace of a call without a matrix starts with the notice and the calibration, neither
  of which occurs again, and the trace of a call with a matrix contains neither.
\<close>

lemma calibration_trace:
  assumes "execute_with_rci env circuit executor observable icm p0 p1 (s, []) = (r, s', tr)"
  shows "(icm = None \<longrightarrow>
            (\<exists>rest. tr = Notice # Calibration # rest \<and> Notice \<notin> set rest \<and> Calibration \<notin> set rest))
       \<and> (icm \<noteq> None \<longrightarrow> Notice \<notin> set tr \<and> Calibration \<notin> set tr)"
proof (cases icm)
  case None
  let ?qs = "all_qubits env circuit"
  obtain c s1 where cal: "measure_correction_matrix env p0 p1 ?qs s = (c, s1)"
    by (cases "measure_correction_matrix env p0 p1 ?qs s")
  show ?thesis
  proof (cases c)
    case (Inl e)
    with assms None cal have "tr = [Notice, Calibration]"
      by (simp add: execute_with_rci_unfold matrix_stage_none)
    with None show ?thesis by simp
  next
    case (Inr m)
    obtain r2 s2 tr2 where rec:
      "corrected_result env circuit executor ?qs m (s1, [Notice, Calibration]) = (r2, s2, tr2)"
      by (cases "corrected_result env circuit executor ?qs m (s1, [Notice, Calibration])") auto
    from corrected_result_trace[OF rec] obtain n where
      n: "tr2 = [Notice, Calibration] @ Execution # replicate n Sampling" by blast
    from assms None cal Inr rec have "tr = tr2"
      by (cases r2) (auto simp add: execute_with_rci_unfold matrix_stage_none)
    with n None show ?thesis by auto
  qed
next
  case (Some m)
  let ?qs = "all_qubits env circuit"
  obtain r2 s2 tr2 where rec:
    "corrected_result env circuit executor ?qs m (s, []) = (r2, s2, tr2)"
    by (cases "corrected_result env circuit executor ?qs m (s, [])") auto
  from corrected_result_trace[OF rec] obtain n where
    n: "tr2 = [] @ Execution # replicate n Sampling" by blast
  from assms Some rec have "tr = tr2"
    by (cases r2) (auto simp add: execute_with_rci_unfold matrix_stage_some)
  with n Some show ?thesis by auto
qed

lemma corrected_result_ignores_calibration:
  "corrected_result (env\<lparr>measure_correction_matrix := calibrate\<rparr>) circuit executor qubits m
     = corrected_result env circuit executor qubits m"
  by (simp add: corrected_result_def adjusted_result_def)

lemma execute_with_matrix_ignores_calibration:
  "execute_with_rci (env\<lparr>measure_correction_matrix := calibrate\<rparr>) circuit executor observable
       (Some m) p0 p1 st
     = execute_with_rci env circuit executor observable (Some m) p0 p1 st"
  by (simp add: execute_with_rci_unfold matrix_stage_some corrected_result_ignores_calibration)

text \<open>
  C7. The calibration is run if and only if no inverse confusion matrix is supplied. Without
  a matrix the notice is printed, then the calibration is called with \<open>p0\<close>,
  \<open>p1\<close> and the circuit's qubits on the current world state: its failure is the
  failure of the call, and otherwise the matrix it returns is the one the correction uses,
  from the world state it leaves; the notice and the calibration occur once, in this order,
  at the start of the trace. With a matrix the correction uses that matrix on the untouched
  world state, the trace has neither the notice nor the calibration, and the outcome is the
  same whatever calibration the environment offers.
\<close>

theorem calibration_run_iff_matrix_absent:
  assumes cal: "measure_correction_matrix env p0 p1 (all_qubits env circuit) s = (c, s1)"
    and run: "execute_with_rci env circuit executor observable icm p0 p1 (s, []) = (r, s', tr)"
  shows "(icm = None \<longrightarrow>
            (r, s', tr) =
              (case c of
                 Inl e \<Rightarrow> (Inl e, s1, [Notice, Calibration])
               | Inr m \<Rightarrow>
                   bind_action
                     (corrected_result env circuit executor (all_qubits env circuit) m)
                     (\<lambda>(noisy_result, res).
                        lift_result (expectation_from_measurements observable res))
                     (s1, [Notice, Calibration]))
            \<and> (\<exists>rest. tr = Notice # Calibration # rest
                  \<and> Notice \<notin> set rest \<and> Calibration \<notin> set rest))
       \<and> (\<forall>m. icm = Some m \<longrightarrow>
            (r, s', tr) =
              bind_action
                (corrected_result env circuit executor (all_qubits env circuit) m)
                (\<lambda>(noisy_result, res).
                   lift_result (expectation_from_measurements observable res))
                (s, [])
            \<and> Notice \<notin> set tr \<and> Calibration \<notin> set tr
            \<and> (\<forall>calibrate.
                  execute_with_rci (env\<lparr>measure_correction_matrix := calibrate\<rparr>) circuit
                    executor observable icm p0 p1 (s, []) = (r, s', tr)))"
proof (intro conjI impI allI)
  assume none: "icm = None"
  show "(r, s', tr) =
      (case c of
         Inl e \<Rightarrow> (Inl e, s1, [Notice, Calibration])
       | Inr m \<Rightarrow>
           bind_action
             (corrected_result env circuit executor (all_qubits env circuit) m)
             (\<lambda>(noisy_result, res).
                lift_result (expectation_from_measurements observable res))
             (s1, [Notice, Calibration]))"
    using run none cal
    by (cases c)
       (simp_all add: execute_with_rci_unfold matrix_stage_none bind_action_def lift_result_def
          split: prod.splits sum.splits)
  from calibration_trace [OF run] none
  show "\<exists>rest. tr = Notice # Calibration # rest \<and> Notice \<notin> set rest \<and> Calibration \<notin> set rest"
    by simp
next
  fix m assume some: "icm = Some m"
  show "(r, s', tr) =
      bind_action
        (corrected_result env circuit executor (all_qubits env circuit) m)
        (\<lambda>(noisy_result, res).
           lift_result (expectation_from_measurements observable res))
        (s, [])"
    using run some
    by (simp add: execute_with_rci_unfold matrix_stage_some bind_action_def lift_result_def
        split: prod.splits sum.splits)
  from calibration_trace [OF run] some
  show "Notice \<notin> set tr" and "Calibration \<notin> set tr" by simp_all
  fix calibrate
  show "execute_with_rci (env\<lparr>measure_correction_matrix := calibrate\<rparr>) circuit
      executor observable icm p0 p1 (s, []) = (r, s', tr)"
    using run some by (simp add: execute_with_matrix_ignores_calibration)
qed

theorem calibration_run_iff_matrix_absent_witness:
  "measure_correction_matrix test_env (1 / 100) (1 / 100) (all_qubits test_env [0, 1]) 0
     = (Inr (identity_matrix 4), 1)
   \<and> execute_with_rci test_env [0, 1] (fixed_executor [[0, 1], [0, 1]] [0, 1])
       (Some observable_ZI_IZ) None (1 / 100) (1 / 100) (0, [])
     = (Inr 0, 4, [Notice, Calibration, Execution, Sampling, Sampling])
   \<and> (Inr 0, 4, [Notice, Calibration, Execution, Sampling, Sampling])
     = bind_action
         (corrected_result test_env [0, 1] (fixed_executor [[0, 1], [0, 1]] [0, 1])
            (all_qubits test_env [0, 1]) (identity_matrix 4))
         (\<lambda>(noisy_result, res).
            lift_result (expectation_from_measurements (Some observable_ZI_IZ) res))
         (1, [Notice, Calibration])
   \<and> (\<exists>rest. [Notice, Calibration, Execution, Sampling, Sampling] = Notice # Calibration # rest
         \<and> Notice \<notin> set rest \<and> Calibration \<notin> set rest)"
proof -
  have cal: "measure_correction_matrix test_env (1 / 100) (1 / 100) (all_qubits test_env [0, 1]) 0
      = (Inr (identity_matrix 4), 1)"
    by (simp add: test_env_def ideal_calibration_def)
  from calibration_run_iff_matrix_absent [OF cal test_run_without_matrix] cal
    test_run_without_matrix
  show ?thesis by simp
qed

subsection \<open>The observable is needed\<close>

text \<open>
  C9. With \<^verbatim>\<open>observable = None\<close> no call returns a value, and every call that
  reaches the evaluation (the matrix is there and the corrected result is built) fails
  with the attribute error of line 109.
\<close>

theorem observable_none_fails:
  "(\<exists>e. fst (execute_with_rci env circuit executor None icm p0 p1 st) = Inl e)
   \<and> (\<forall>m st1 nr res st2.
        inverse_confusion_matrix_stage env (all_qubits env circuit) icm p0 p1 st = (Inr m, st1)
        \<and> corrected_result env circuit executor (all_qubits env circuit) m st1 = (Inr (nr, res), st2)
        \<longrightarrow> execute_with_rci env circuit executor None icm p0 p1 st = (Inl AttributeError, st2))"
  by (auto simp add: execute_with_rci_unfold expectation_from_measurements_def
      split: sum.splits prod.splits)

theorem observable_none_fails_witness:
  "execute_with_rci test_env [0, 1] (fixed_executor [[0, 1], [1, 1], [1, 0]] [0, 1]) None
     (Some (antidiagonal_matrix 4)) (1 / 100) (1 / 100) (0, [])
   = (Inl AttributeError, 4, [Execution, Sampling, Sampling, Sampling])"
proof -
  have stage:
    "inverse_confusion_matrix_stage test_env (all_qubits test_env [0, 1])
       (Some (antidiagonal_matrix 4)) (1 / 100) (1 / 100) (0, [])
     = (Inr (antidiagonal_matrix 4), (0, []))"
    by (simp add: matrix_stage_some)
  have qubits: "all_qubits test_env [0, 1] = [0, 1]"
    by (simp add: test_env_def)
  show ?thesis
    using observable_none_fails [of test_env "[0, 1]"
        "fixed_executor [[0, 1], [1, 1], [1, 0]] [0, 1]" "Some (antidiagonal_matrix 4)"
        "1 / 100" "1 / 100" "(0, [])"]
      stage test_corrected_result qubits
    by simp
qed

subsection \<open>The flip probabilities are unused when the matrix is supplied\<close>

text \<open>
  C10. With an inverse confusion matrix supplied, two calls that differ only in
  \<open>p0\<close> and \<open>p1\<close> return the same value, leave the same world state and have
  the same trace.
\<close>

theorem result_independent_of_p0_p1:
  "execute_with_rci env circuit executor observable (Some m) p0 p1 st
     = execute_with_rci env circuit executor observable (Some m) p0' p1' st"
  by (simp add: execute_with_rci_unfold matrix_stage_some)

subsection \<open>The decorator\<close>

text \<open>
  C5. \<^verbatim>\<open>rci_decorator\<close> called with a callable as its first argument, as happens
  when the decorator is written without parentheses, raises the type error; the decorator
  is not built, so nothing is executed.
\<close>

theorem decorator_without_parentheses:
  "callable observable \<Longrightarrow> rci_decorator env observable icm p0 p1 = Inl TypeError"
  by (simp add: rci_decorator_def)

theorem decorator_without_parentheses_witness:
  "callable (FunctionArgument (fixed_executor [[1, 1]] [0, 1]))
   \<and> rci_decorator test_env (FunctionArgument (fixed_executor [[1, 1]] [0, 1])) None (1 / 100) (1 / 100)
       = Inl TypeError"
  using decorator_without_parentheses [of "FunctionArgument (fixed_executor [[1, 1]] [0, 1])" test_env None "1 / 100" "1 / 100"]
  by simp

text \<open>
  C6. The function returned by \<^verbatim>\<open>mitigate_executor\<close>, and so the function returned
  by a decorator that \<^verbatim>\<open>rci_decorator\<close> builds, has the documentation string and
  the name of the executor it wraps.
\<close>

theorem metadata_preserved:
  "fn_doc (mitigate_executor env executor observable icm p0 p1) = fn_doc executor
   \<and> fn_name (mitigate_executor env executor observable icm p0 p1) = fn_name executor
   \<and> (\<forall>decorator. rci_decorator env arg icm p0 p1 = Inr decorator \<longrightarrow>
         fn_doc (decorator executor) = fn_doc executor
         \<and> fn_name (decorator executor) = fn_name executor)"
  by (auto simp add: mitigate_executor_def wraps_def rci_decorator_def split: if_splits)

theorem metadata_preserved_witness:
  "\<exists>decorator. rci_decorator test_env NoneArgument None (1 / 100) (1 / 100) = Inr decorator
     \<and> fn_doc (decorator (fixed_executor [[1, 1]] [0, 1])) = Some ''Doc of the original executor.''
     \<and> fn_name (decorator (fixed_executor [[1, 1]] [0, 1])) = ''first_executor''"
proof -
  obtain decorator where
    d: "rci_decorator test_env NoneArgument None (1 / 100) (1 / 100) = Inr decorator"
    by (simp add: rci_decorator_def)
  from metadata_preserved [of test_env "fixed_executor [[1, 1]] [0, 1]" None None "1 / 100"
      "1 / 100" NoneArgument] d
  have "fn_doc (decorator (fixed_executor [[1, 1]] [0, 1])) = fn_doc (fixed_executor [[1, 1]] [0, 1])
     \<and> fn_name (decorator (fixed_executor [[1, 1]] [0, 1])) = fn_name (fixed_executor [[1, 1]] [0, 1])"
    by blast
  with d show ?thesis
    by (simp add: fixed_executor_def)
qed

subsection \<open>Shapes and values of the correction stage\<close>

lemma sequence_results_map:
  "\<forall>x\<in>set xs. f x = Inr (g x) \<Longrightarrow> sequence_results (map f xs) = Inr (map g xs)"
  by (induction xs) simp_all

lemma sequence_results_length:
  "sequence_results rs = Inr xs \<Longrightarrow> length xs = length rs \<and> (\<forall>x\<in>set xs. Inr x \<in> set rs)"
  by (induction rs arbitrary: xs) (auto split: sum.splits)

lemma bits_to_int_bound_aux:
  "list_all (\<lambda>b. b < 2) bits \<Longrightarrow>
     Suc (foldl (\<lambda>acc b. 2 * acc + b) a bits) \<le> Suc a * 2 ^ length bits"
proof (induction bits arbitrary: a)
  case Nil
  then show ?case by simp
next
  case (Cons b bits)
  from Cons.prems have b: "b < 2" and rest: "list_all (\<lambda>b. b < 2) bits" by simp_all
  have "Suc (foldl (\<lambda>acc b. 2 * acc + b) (2 * a + b) bits) \<le> Suc (2 * a + b) * 2 ^ length bits"
    by (rule Cons.IH [OF rest])
  also have "\<dots> \<le> (2 * Suc a) * 2 ^ length bits"
    using b by (intro mult_right_mono) simp_all
  finally show ?case by (simp add: mult.assoc)
qed

lemma big_endian_bits_to_int_bound:
  "is_bit_vector n shot \<Longrightarrow> big_endian_bits_to_int shot < 2 ^ n"
  using bits_to_int_bound_aux [of shot 0]
  by (auto simp add: is_bit_vector_def big_endian_bits_to_int_def)

lemma to_valid_state_vector_bits:
  assumes "is_bit_vector n shot"
  shows "to_valid_state_vector n shot = Inr (one_hot (2 ^ n) (big_endian_bits_to_int shot))"
proof -
  have "n < (2::nat) ^ n" by (rule less_exp)
  then have "n \<noteq> (2::nat) ^ n" by (rule less_imp_neq)
  with assms show ?thesis
    by (simp add: to_valid_state_vector_def is_bit_vector_def)
qed

lemma to_valid_state_vector_length:
  "to_valid_state_vector n shot = Inr v \<Longrightarrow> length v = 2 ^ n"
  by (auto simp add: to_valid_state_vector_def one_hot_def split: if_splits)

lemma noisy_state_vectors_shape:
  assumes "noisy_state_vectors n noisy = Inr vs"
  shows "vs \<noteq> [] \<and> length vs = length (result noisy) \<and> (\<forall>v\<in>set vs. length v = 2 ^ n)"
proof -
  from assms have ne: "result noisy \<noteq> []"
    and seq: "sequence_results (map (to_valid_state_vector n) (result noisy)) = Inr vs"
    by (auto simp add: noisy_state_vectors_def apply_along_axis_def split: if_splits)
  from sequence_results_length [OF seq] have len: "length vs = length (result noisy)"
    and mem: "\<forall>v\<in>set vs. Inr v \<in> set (map (to_valid_state_vector n) (result noisy))" by auto
  from mem have "\<forall>v\<in>set vs. length v = 2 ^ n"
    by (auto dest: to_valid_state_vector_length [OF sym])
  with ne len show ?thesis by auto
qed

lemma ncols_rect: "m \<noteq> [] \<Longrightarrow> \<forall>r\<in>set m. length r = d \<Longrightarrow> ncols m = d"
  by (cases m) (simp_all add: ncols_def)

lemma transpose_T_length: "length (transpose_T m) = ncols m"
  by (simp add: transpose_T_def)

lemma ncols_transpose_T: "0 < ncols m \<Longrightarrow> ncols (transpose_T m) = length m"
  by (simp add: transpose_T_def ncols_def upt_conv_Cons split: list.splits)

lemma transpose_T_involution:
  assumes "m \<noteq> []" and "\<forall>r\<in>set m. length r = d" and "0 < d"
  shows "transpose_T (transpose_T m) = m"
proof -
  have nc: "ncols m = d" using assms by (simp add: ncols_rect)
  have nct: "ncols (transpose_T m) = length m"
    using nc assms(3) by (simp add: ncols_transpose_T)
  show ?thesis
  proof (rule nth_equalityI)
    show "length (transpose_T (transpose_T m)) = length m"
      by (simp add: transpose_T_length nct)
  next
    fix i assume "i < length (transpose_T (transpose_T m))"
    then have i: "i < length m" by (simp add: transpose_T_length nct)
    then have li: "length (m ! i) = d" using assms(2) by simp
    have "transpose_T (transpose_T m) ! i = map (\<lambda>r. r ! i) (transpose_T m)"
      using i by (simp add: transpose_T_def [of "transpose_T m"] nct)
    also have "\<dots> = map (\<lambda>j. m ! i ! j) [0..<d]"
      using i by (simp add: transpose_T_def nc)
    also have "\<dots> = m ! i"
      using li by (metis map_nth)
    finally show "transpose_T (transpose_T m) ! i = m ! i" .
  qed
qed

lemma adjusted_state_vectors_rowwise:
  assumes m: "m \<noteq> []" "\<forall>r\<in>set m. length r = d"
    and vs: "vs \<noteq> []" "\<forall>v\<in>set vs. length v = d" and d: "0 < d"
  shows "adjusted_state_vectors m vs = Inr (map (mat_vec m) vs)"
proof -
  have ncm: "ncols m = d" using m by (simp add: ncols_rect)
  have ncv: "ncols vs = d" using vs by (simp add: ncols_rect)
  have tt: "transpose_T (transpose_T vs) = vs"
    using vs d by (rule transpose_T_involution)
  let ?p = "map (\<lambda>row. map (dot row) vs) m"
  have mm: "matmul m (transpose_T vs) = Inr ?p"
    by (simp add: matmul_def transpose_T_length ncm ncv tt)
  have ncp: "ncols ?p = length vs"
    using m(1) by (cases m) (simp_all add: ncols_def)
  have "transpose_T ?p = map (\<lambda>j. mat_vec m (vs ! j)) [0..<length vs]"
    unfolding transpose_T_def [of ?p] ncp by (simp add: mat_vec_def)
  also have "\<dots> = map (mat_vec m) (map (\<lambda>j. vs ! j) [0..<length vs])"
    by (simp only: map_map o_def)
  also have "\<dots> = map (mat_vec m) vs"
    by (simp only: map_nth)
  finally show ?thesis
    by (simp add: adjusted_state_vectors_def mm)
qed

lemma adjusted_state_vectors_length:
  assumes "adjusted_state_vectors m vs = Inr adjusted"
    and vs: "vs \<noteq> []" "\<forall>v\<in>set vs. length v = d" and d: "0 < d"
  shows "length adjusted = length vs"
proof -
  have ncv: "ncols vs = d" using vs by (simp add: ncols_rect)
  from assms(1) have ncm: "ncols m = d"
    and adj: "adjusted = transpose_T (map (\<lambda>row. map (dot row) (transpose_T (transpose_T vs))) m)"
    by (auto simp add: adjusted_state_vectors_def matmul_def transpose_T_length ncv
        split: if_splits)
  from ncm d have "m \<noteq> []" by (auto simp add: ncols_def)
  then have "ncols (map (\<lambda>row. map (dot row) (transpose_T (transpose_T vs))) m)
      = ncols (transpose_T vs)"
    by (cases m) (simp_all add: ncols_def transpose_T_length)
  also have "\<dots> = length vs"
    using ncv d by (simp add: ncols_transpose_T)
  finally show ?thesis
    by (simp add: adj transpose_T_length)
qed

lemma noisy_state_vectors_one_hot:
  assumes "result noisy \<noteq> []" and "list_all (is_bit_vector n) (result noisy)"
  shows "noisy_state_vectors n noisy
           = Inr (map (\<lambda>shot. one_hot (2 ^ n) (big_endian_bits_to_int shot)) (result noisy))"
proof -
  from assms(2) have "\<forall>shot\<in>set (result noisy). to_valid_state_vector n shot
      = Inr (one_hot (2 ^ n) (big_endian_bits_to_int shot))"
    by (simp add: list_all_iff to_valid_state_vector_bits)
  then show ?thesis
    using assms(1) by (simp add: noisy_state_vectors_def apply_along_axis_def sequence_results_map)
qed

lemma corrected_result_unfold:
  assumes "fn_call executor circuit s = (Inr (MeasurementValue noisy), s1)"
    and "noisy_state_vectors (length qubits) noisy = Inr vs"
  shows "corrected_result env circuit executor qubits m (s, tr) =
     (case adjusted_state_vectors m vs of
        Inl e \<Rightarrow> (Inl e, s1, tr @ [Execution])
      | Inr adjusted \<Rightarrow>
          bind_action (adjusted_result env (qubit_indices noisy) adjusted) (\<lambda>arr.
          bind_action (lift_result (MeasurementResult arr (qubit_indices noisy))) (\<lambda>res.
          return_action (noisy, res))) (s1, tr @ [Execution]))"
  using assms
  by (simp add: corrected_result_def bind_action_def perform_def lift_result_def
      split: sum.splits)

lemma corrected_result_success:
  assumes "corrected_result env circuit executor qubits m (s, tr) = (Inr (noisy, res), st')"
  shows "\<exists>s1 vs adjusted arr.
           fn_call executor circuit s = (Inr (MeasurementValue noisy), s1)
         \<and> noisy_state_vectors (length qubits) noisy = Inr vs
         \<and> adjusted_state_vectors m vs = Inr adjusted
         \<and> adjusted_result env (qubit_indices noisy) adjusted (s1, tr @ [Execution]) = (Inr arr, st')
         \<and> MeasurementResult arr (qubit_indices noisy) = Inr res"
  using assms
  by (auto simp add: corrected_result_def bind_action_def perform_def lift_result_def
      return_action_def split: sum.splits prod.splits exec_value.splits)

lemma sample_rows_shape:
  "sample_rows f vs st = (Inr samples, st') \<Longrightarrow>
     length samples = length vs \<and> (\<forall>x\<in>set samples. length x = 1)"
proof (induction vs arbitrary: st samples st')
  case Nil
  then show ?case by (simp add: return_action_def)
next
  case (Cons v vs)
  from Cons.prems obtain sample st1 rest where
    rec: "sample_rows f vs st1 = (Inr rest, st')" and s: "samples = [sample] # rest"
    by (auto simp add: bind_action_def return_action_def split: sum.splits prod.splits)
  from Cons.IH [OF rec] s show ?case by simp
qed

lemma squeeze_Arr2:
  assumes "squeeze samples = Arr2 rows" and "samples \<noteq> []" and "\<forall>x\<in>set samples. length x = 1"
  shows "rows = map hd samples \<and> length samples \<noteq> 1"
proof -
  from assms(2,3) have "ncols samples = 1"
    by (cases samples) (simp_all add: ncols_def)
  with assms(1) show ?thesis
    by (simp add: squeeze_def Let_def split: if_splits)
qed

lemma adjusted_result_success:
  assumes "adjusted_result env idx vs st = (Inr arr, st')"
  shows "\<exists>samples. vs \<noteq> [] \<and> arr = squeeze samples \<and> length samples = length vs
            \<and> (\<forall>x\<in>set samples. length x = 1)"
proof -
  from assms obtain samples where
    ne: "vs \<noteq> []"
    and rows: "sample_rows (\<lambda>v. sample_state_vector env v idx) vs st = (Inr samples, st')"
    and arr: "arr = squeeze samples"
    by (auto simp add: adjusted_result_def apply_along_axis_sampling_def bind_action_def
        return_action_def lift_result_def split: if_splits sum.splits prod.splits)
  from sample_rows_shape [OF rows] ne arr show ?thesis by blast
qed

lemma MeasurementResult_success:
  "MeasurementResult arr idx = Inr res \<Longrightarrow>
     \<exists>rows. arr = Arr2 rows \<and> res = \<lparr>result = rows, qubit_indices = idx\<rparr>
          \<and> list_all (is_bit_vector (length idx)) rows"
  by (auto simp add: MeasurementResult_def split: ndarray.splits if_splits)

subsection \<open>The corrected measurement result\<close>

text \<open>
  C8. Whenever the correction succeeds, the corrected measurement result has the qubit
  indices of the noisy result, in the same order, and one bit vector over these indices
  for each shot of the noisy result.
\<close>

theorem corrected_result_keeps_indices_and_shots:
  assumes "corrected_result env circuit executor qubits m (s, tr) = (Inr (noisy, res), st')"
  shows "qubit_indices res = qubit_indices noisy
       \<and> length (result res) = length (result noisy)
       \<and> list_all (is_bit_vector (length (qubit_indices noisy))) (result res)"
proof -
  from corrected_result_success [OF assms] obtain s1 vs adjusted arr where
    vs: "noisy_state_vectors (length qubits) noisy = Inr vs"
    and adj: "adjusted_state_vectors m vs = Inr adjusted"
    and smp: "adjusted_result env (qubit_indices noisy) adjusted (s1, tr @ [Execution]) = (Inr arr, st')"
    and mk: "MeasurementResult arr (qubit_indices noisy) = Inr res"
    by blast
  from noisy_state_vectors_shape [OF vs] have
    shape: "vs \<noteq> []" "length vs = length (result noisy)"
      "\<forall>v\<in>set vs. length v = 2 ^ length qubits"
    by simp_all
  have len_adj: "length adjusted = length vs"
    by (rule adjusted_state_vectors_length [OF adj shape(1) shape(3)]) simp
  from adjusted_result_success [OF smp] obtain samples where
    samples: "arr = squeeze samples" "length samples = length adjusted"
      "\<forall>x\<in>set samples. length x = 1" "adjusted \<noteq> []"
    by blast
  from MeasurementResult_success [OF mk] obtain rows where
    rows: "arr = Arr2 rows" "res = \<lparr>result = rows, qubit_indices = qubit_indices noisy\<rparr>"
      "list_all (is_bit_vector (length (qubit_indices noisy))) rows"
    by blast
  from samples have ne: "samples \<noteq> []" by auto
  from rows(1) samples(1) have "squeeze samples = Arr2 rows" by simp
  from squeeze_Arr2 [OF this ne samples(3)] have "length rows = length samples" by simp
  with rows samples(2) len_adj shape(2) show ?thesis by simp
qed

theorem corrected_result_keeps_indices_and_shots_witness:
  "corrected_result test_env [0, 1] (fixed_executor [[0, 1], [1, 1], [1, 0]] [0, 1]) [0, 1]
     (antidiagonal_matrix 4) (0, [])
   = (Inr (\<lparr>result = [[0, 1], [1, 1], [1, 0]], qubit_indices = [0, 1]\<rparr>,
           \<lparr>result = [[1, 0], [0, 0], [0, 1]], qubit_indices = [0, 1]\<rparr>),
      4, [Execution, Sampling, Sampling, Sampling])
   \<and> length [[1, 0], [0, 0], [0, 1::nat]] = length [[0, 1], [1, 1], [1, 0::nat]]
   \<and> list_all (is_bit_vector (length [0, 1::nat])) [[1, 0], [0, 0], [0, 1]]"
  using corrected_result_keeps_indices_and_shots [OF test_corrected_result] test_corrected_result
  by simp

subsection \<open>The correction, shot by shot\<close>

text \<open>
  C2. For a noisy result whose shots are bit vectors of the length of the circuit's qubits,
  each shot becomes the one-hot vector of length \<open>2 ^ n\<close> at the index that the shot
  denotes in binary, an index below \<open>2 ^ n\<close>; the batched product
  \<^verbatim>\<open>(M @ V.T).T\<close> is the matrix applied to each of these vectors; and whatever
  the entries of the matrix are, the rows so corrected go on to the sampling stage.
\<close>

theorem shots_corrected_rowwise:
  assumes run: "fn_call executor circuit s = (Inr (MeasurementValue noisy), s1)"
    and shots: "result noisy \<noteq> []"
      "list_all (is_bit_vector (length qubits)) (result noisy)"
    and m: "m \<noteq> []" "list_all (\<lambda>row. length row = 2 ^ length qubits) m"
  shows "noisy_state_vectors (length qubits) noisy
           = Inr (map (\<lambda>shot. one_hot (2 ^ length qubits) (big_endian_bits_to_int shot))
                    (result noisy))
       \<and> (\<forall>shot\<in>set (result noisy). big_endian_bits_to_int shot < 2 ^ length qubits)
       \<and> adjusted_state_vectors m
             (map (\<lambda>shot. one_hot (2 ^ length qubits) (big_endian_bits_to_int shot))
                (result noisy))
           = Inr (map (\<lambda>shot. mat_vec m (one_hot (2 ^ length qubits) (big_endian_bits_to_int shot)))
                    (result noisy))
       \<and> corrected_result env circuit executor qubits m (s, tr)
           = bind_action
               (adjusted_result env (qubit_indices noisy)
                  (map (\<lambda>shot. mat_vec m (one_hot (2 ^ length qubits) (big_endian_bits_to_int shot)))
                     (result noisy)))
               (\<lambda>arr.
                  bind_action (lift_result (MeasurementResult arr (qubit_indices noisy)))
                    (\<lambda>res. return_action (noisy, res)))
               (s1, tr @ [Execution])"
proof -
  let ?n = "length qubits"
  let ?vs = "map (\<lambda>shot. one_hot (2 ^ ?n) (big_endian_bits_to_int shot)) (result noisy)"
  have vs: "noisy_state_vectors ?n noisy = Inr ?vs"
    using shots by (rule noisy_state_vectors_one_hot)
  have bound: "\<forall>shot\<in>set (result noisy). big_endian_bits_to_int shot < 2 ^ ?n"
    using shots(2) by (simp add: list_all_iff big_endian_bits_to_int_bound)
  have "adjusted_state_vectors m ?vs = Inr (map (mat_vec m) ?vs)"
  proof (rule adjusted_state_vectors_rowwise)
    show "m \<noteq> []" by (rule m(1))
    show "\<forall>r\<in>set m. length r = 2 ^ ?n" using m(2) by (simp add: list_all_iff)
    show "?vs \<noteq> []" using shots(1) by simp
    show "\<forall>v\<in>set ?vs. length v = 2 ^ ?n" by (simp add: one_hot_def)
    show "0 < (2::nat) ^ ?n" by simp
  qed
  then have adj: "adjusted_state_vectors m ?vs
      = Inr (map (\<lambda>shot. mat_vec m (one_hot (2 ^ ?n) (big_endian_bits_to_int shot))) (result noisy))"
    by (simp add: o_def)
  have "corrected_result env circuit executor qubits m (s, tr)
      = bind_action
               (adjusted_result env (qubit_indices noisy)
                  (map (\<lambda>shot. mat_vec m (one_hot (2 ^ ?n) (big_endian_bits_to_int shot)))
                     (result noisy)))
               (\<lambda>arr.
                  bind_action (lift_result (MeasurementResult arr (qubit_indices noisy)))
                    (\<lambda>res. return_action (noisy, res)))
               (s1, tr @ [Execution])"
    by (simp add: corrected_result_unfold [OF run vs] adj)
  with vs bound adj show ?thesis by simp
qed

theorem shots_corrected_rowwise_witness:
  "noisy_state_vectors 2 \<lparr>result = [[0, 1], [1, 1]], qubit_indices = [0, 1]\<rparr>
     = Inr [[0, 1, 0, 0], [0, 0, 0, 1]]
   \<and> adjusted_state_vectors
         [[3 / 2, - 1 / 2, 0, 0], [- 1 / 2, 3 / 2, 0, 0], [0, 0, 3 / 2, - 1 / 2], [0, 0, - 1 / 2, 3 / 2]]
         [[0, 1, 0, 0], [0, 0, 0, 1]]
     = Inr [[- 1 / 2, 3 / 2, 0, 0], [0, 0, - 1 / 2, 3 / 2]]"
proof -
  let ?noisy = "\<lparr>result = [[0, 1], [1, 1]], qubit_indices = [0, 1]\<rparr>"
  let ?m = "[[3 / 2, - 1 / 2, 0, 0], [- 1 / 2, 3 / 2, 0, 0], [0, 0, 3 / 2, - 1 / 2],
             [0, 0, - 1 / 2, 3 / 2 :: real]]"
  have run: "fn_call (fixed_executor [[0, 1], [1, 1]] [0, 1]) [0, 1] 0
      = (Inr (MeasurementValue ?noisy), 1)"
    by (simp add: fixed_executor_def)
  have shots: "result ?noisy \<noteq> []"
    "list_all (is_bit_vector (length [0, 1 :: nat])) (result ?noisy)"
    by (simp_all add: is_bit_vector_def)
  have m: "?m \<noteq> []" "list_all (\<lambda>row. length row = 2 ^ length [0, 1 :: nat]) ?m"
    by simp_all
  have vectors: "map (\<lambda>shot. one_hot (2 ^ length [0, 1 :: nat]) (big_endian_bits_to_int shot))
      (result ?noisy) = [[0, 1, 0, 0], [0, 0, 0, 1]]"
    by code_simp
  have products: "map (\<lambda>shot. mat_vec ?m
        (one_hot (2 ^ length [0, 1 :: nat]) (big_endian_bits_to_int shot))) (result ?noisy)
      = [[- 1 / 2, 3 / 2, 0, 0], [0, 0, - 1 / 2, 3 / 2]]"
    by code_simp
  note th = shots_corrected_rowwise [OF run shots m, of test_env "[]"]
  from th have "noisy_state_vectors (length [0, 1 :: nat]) ?noisy
      = Inr [[0, 1, 0, 0], [0, 0, 0, 1]]"
    unfolding vectors products by (rule conjunct1)
  moreover from th have "adjusted_state_vectors ?m [[0, 1, 0, 0], [0, 0, 0, 1]]
      = Inr [[- 1 / 2, 3 / 2, 0, 0], [0, 0, - 1 / 2, 3 / 2]]"
    unfolding vectors products by blast
  ultimately show ?thesis by (simp add: numeral_2_eq_2)
qed

subsection \<open>An inverse confusion matrix of the wrong size\<close>

lemma test_run_with_tall_matrix:
  "execute_with_rci test_env [0, 1] (fixed_executor [[1, 1], [1, 1]] [0, 1])
     (Some observable_ZI_IZ) (Some (identity_matrix 4 @ identity_matrix 4)) (1 / 100) (1 / 100) (0, [])
   = (Inr 0, 3, [Execution, Sampling, Sampling])"
  by code_simp

text \<open>
  C1 at the input of \<^verbatim>\<open>test_rem_with_invalid_matrix\<close>: the two-qubit circuit and
  the identity matrix of size two. The call is to fail with an assertion error before the
  executor is invoked. It fails, but the executor has been run (the world state has moved
  and the trace holds the execution), and the failure is the shape error of the matrix
  product, not an assertion: the module never compares the size of the matrix with
  \<open>2 ^ n\<close>.
\<close>

theorem dimension_mismatch_detected_late:
  "execute_with_rci test_env [0, 1] (fixed_executor [[1, 1], [1, 1]] [0, 1])
     (Some observable_ZI_IZ) (Some (identity_matrix 2)) (1 / 100) (1 / 100) (0, [])
   = (Inl ValueError, 1, [Execution])"
  by code_simp

text \<open>
  The same holds in general. When the number of columns of the supplied matrix is not
  \<open>2 ^ n\<close> and the executor returns a result with at least one shot, each a bit vector
  over the \<open>n\<close> qubits, the only failure is the shape error of the matrix product, and
  the executor has been run by then. A matrix with \<open>2 ^ n\<close> columns and another number
  of rows is not refused by the product at all, as the run with eight rows above shows.
\<close>

lemma column_mismatch_fails_after_execution:
  assumes run: "fn_call executor circuit s = (Inr (MeasurementValue noisy), s1)"
    and shots: "result noisy \<noteq> []"
      "list_all (is_bit_vector (length (all_qubits env circuit))) (result noisy)"
    and m: "ncols m \<noteq> 2 ^ length (all_qubits env circuit)"
  shows "execute_with_rci env circuit executor observable (Some m) p0 p1 (s, [])
           = (Inl ValueError, s1, [Execution])"
proof -
  let ?n = "length (all_qubits env circuit)"
  let ?vs = "map (\<lambda>shot. one_hot (2 ^ ?n) (big_endian_bits_to_int shot)) (result noisy)"
  have vs: "noisy_state_vectors ?n noisy = Inr ?vs"
    using shots by (rule noisy_state_vectors_one_hot)
  have "ncols ?vs = 2 ^ ?n"
    using shots(1) by (intro ncols_rect) (simp_all add: one_hot_def)
  with m have "adjusted_state_vectors m ?vs = Inl ValueError"
    by (simp add: adjusted_state_vectors_def matmul_def transpose_T_length)
  then show ?thesis
    by (simp add: execute_with_rci_unfold matrix_stage_some corrected_result_unfold [OF run vs])
qed

lemma column_mismatch_fails_after_execution_test:
  "ncols [[1, 0, 0], [0, 1, 0], [0, 0, 1 :: real]] \<noteq> 2 ^ length [0, 1 :: nat]
   \<and> execute_with_rci test_env [0, 1] (fixed_executor [[0, 1], [1, 1], [1, 0]] [0, 1])
       (Some observable_ZI_IZ) (Some [[1, 0, 0], [0, 1, 0], [0, 0, 1]]) (1 / 100) (1 / 100) (0, [])
     = (Inl ValueError, 1, [Execution])"
proof -
  let ?noisy = "\<lparr>result = [[0, 1], [1, 1], [1, 0]], qubit_indices = [0, 1]\<rparr>"
  have run: "fn_call (fixed_executor [[0, 1], [1, 1], [1, 0]] [0, 1]) [0, 1] 0
      = (Inr (MeasurementValue ?noisy), 1)"
    by (simp add: fixed_executor_def)
  have shots: "result ?noisy \<noteq> []"
    "list_all (is_bit_vector (length (all_qubits test_env [0, 1]))) (result ?noisy)"
    by (simp_all add: is_bit_vector_def test_env_def)
  have m: "ncols [[1, 0, 0], [0, 1, 0], [0, 0, 1 :: real]]
      \<noteq> 2 ^ length (all_qubits test_env [0, 1])"
    by (simp add: ncols_def test_env_def)
  from column_mismatch_fails_after_execution [OF run shots m] m show ?thesis
    by (simp add: test_env_def)
qed

subsection \<open>The regular case: two shots or more, the qubits in order\<close>

text \<open>
  With at least two shots, a number of qubits other than one, the qubit indices
  \<open>0, \<dots>, n - 1\<close> in this order and a sampler that is faithful on basis states, a
  matrix that sends the basis state of each shot to the basis state of another bit vector
  makes the corrected result consist of these bit vectors. The identity matrix returns the
  noisy result itself, the anti-diagonal matrix the result with every bit flipped.
\<close>

lemma bits_to_int_snoc:
  "big_endian_bits_to_int (bits @ [b]) = 2 * big_endian_bits_to_int bits + b"
  by (simp add: big_endian_bits_to_int_def)

lemma digits_snoc:
  assumes "b < 2"
  shows "big_endian_int_to_digits (Suc m) (2 * v + b) = big_endian_int_to_digits m v @ [b]"
proof -
  have "\<And>i. i < m \<Longrightarrow> (2 * v + b) div 2 ^ (m - i) mod 2 = v div 2 ^ (m - 1 - i) mod 2"
  proof -
    fix i assume "i < m"
    then obtain k where k: "m - i = Suc k" and k': "m - 1 - i = k"
      by (cases "m - i") auto
    have "(2 * v + b) div 2 ^ Suc k = ((2 * v + b) div 2) div 2 ^ k"
      by (simp add: div_mult2_eq)
    also have "(2 * v + b) div 2 = v" using assms by simp
    finally have "(2 * v + b) div 2 ^ Suc k = v div 2 ^ k" .
    then show "(2 * v + b) div 2 ^ (m - i) mod 2 = v div 2 ^ (m - 1 - i) mod 2"
      unfolding k k' by (rule arg_cong)
  qed
  then have "map (\<lambda>i. (2 * v + b) div 2 ^ (m - i) mod 2) [0..<m]
      = map (\<lambda>i. v div 2 ^ (m - 1 - i) mod 2) [0..<m]"
    by simp
  then show ?thesis
    using assms by (simp add: big_endian_int_to_digits_def)
qed

lemma digits_of_bits:
  "list_all (\<lambda>b. b < 2) shot \<Longrightarrow>
     big_endian_int_to_digits (length shot) (big_endian_bits_to_int shot) = shot"
proof (induction shot rule: rev_induct)
  case Nil
  then show ?case by (simp add: big_endian_int_to_digits_def)
next
  case (snoc b shot)
  then show ?case by (simp add: bits_to_int_snoc digits_snoc)
qed

lemma bits_of_flipped:
  "list_all (\<lambda>b. b < 2) shot \<Longrightarrow>
     big_endian_bits_to_int (flip_bits shot) = 2 ^ length shot - 1 - big_endian_bits_to_int shot"
proof (induction shot rule: rev_induct)
  case Nil
  then show ?case by (simp add: flip_bits_def big_endian_bits_to_int_def)
next
  case (snoc b shot)
  from snoc.prems have b: "b < 2" and rest: "list_all (\<lambda>b. b < 2) shot" by simp_all
  have bound: "big_endian_bits_to_int shot < 2 ^ length shot"
    using rest by (intro big_endian_bits_to_int_bound) (simp add: is_bit_vector_def)
  have "flip_bits (shot @ [b]) = flip_bits shot @ [1 - b]" by (simp add: flip_bits_def)
  then have "big_endian_bits_to_int (flip_bits (shot @ [b]))
      = 2 * (2 ^ length shot - 1 - big_endian_bits_to_int shot) + (1 - b)"
    using snoc.IH [OF rest] by (simp add: bits_to_int_snoc)
  also have "\<dots> = 2 ^ length (shot @ [b]) - 1 - big_endian_bits_to_int (shot @ [b])"
    using b bound by (simp add: bits_to_int_snoc)
  finally show ?case .
qed

lemma flip_bits_bits: "list_all (\<lambda>b. b < 2) (flip_bits shot)"
proof -
  have "\<And>b::nat. 1 - b < 2" by arith
  then show ?thesis by (simp add: flip_bits_def list_all_iff)
qed

lemma dot_one_hot:
  assumes "i < length v"
  shows "dot (one_hot (length v) i) v = v ! i"
proof -
  let ?d = "length v"
  have "dot (one_hot ?d i) v
      = (\<Sum>k = 0..<?d. (if k = i then 1 else 0) * v ! k)"
    by (simp add: dot_def one_hot_def sum_list_sum_nth)
  also have "\<dots> = (\<Sum>k = 0..<?d. if k = i then v ! k else 0)"
    by (intro sum.cong) simp_all
  also have "\<dots> = v ! i"
    using assms by simp
  finally show ?thesis .
qed

lemma mat_vec_identity: "mat_vec (identity_matrix (length v)) v = v"
proof -
  have "mat_vec (identity_matrix (length v)) v = map (\<lambda>i. v ! i) [0..<length v]"
    by (simp add: mat_vec_def identity_matrix_def dot_one_hot)
  then show ?thesis by (simp add: map_nth)
qed

lemma mat_vec_antidiagonal:
  assumes "j < d"
  shows "mat_vec (antidiagonal_matrix d) (one_hot d j) = one_hot d (d - 1 - j)"
proof -
  have len: "length (one_hot d j) = d" by (simp add: one_hot_def)
  have "\<And>i. i < d \<Longrightarrow> dot (one_hot d (d - 1 - i)) (one_hot d j) = (if i = d - 1 - j then 1 else 0)"
  proof -
    fix i assume i: "i < d"
    then have "d - 1 - i < length (one_hot d j)" by (simp add: len)
    from dot_one_hot [OF this] have "dot (one_hot d (d - 1 - i)) (one_hot d j) = one_hot d j ! (d - 1 - i)"
      by (simp add: len)
    also have "\<dots> = (if d - 1 - i = j then 1 else 0)"
      using i by (simp add: one_hot_def)
    also have "\<dots> = (if i = d - 1 - j then 1 else 0)"
      using i assms by auto
    finally show "dot (one_hot d (d - 1 - i)) (one_hot d j) = (if i = d - 1 - j then 1 else 0)" .
  qed
  then show ?thesis
    by (simp add: mat_vec_def antidiagonal_matrix_def one_hot_def)
qed

lemma digits_length: "length (big_endian_int_to_digits m j) = m"
  by (simp add: big_endian_int_to_digits_def)

lemma sample_rows_faithful:
  assumes "basis_faithful sampler" and "list_all (\<lambda>i. i < m) indices"
    and "distinct indices"
  shows "\<forall>j\<in>set js. j < 2 ^ m \<Longrightarrow>
     \<exists>st'. sample_rows (\<lambda>v. sampler v indices) (map (one_hot (2 ^ m)) js) st
       = (Inr (map (\<lambda>j. [map (\<lambda>i. big_endian_int_to_digits m j ! i) indices]) js), st')"
proof (induction js arbitrary: st)
  case Nil
  then show ?case by (simp add: return_action_def)
next
  case (Cons j js)
  obtain s tr where st: "st = (s, tr)" by (cases st)
  from Cons.prems have j: "j < 2 ^ m" and rest: "\<forall>j\<in>set js. j < 2 ^ m" by simp_all
  from assms j have "fst (sampler (one_hot (2 ^ m) j) indices s)
      = Inr (map (\<lambda>i. big_endian_int_to_digits m j ! i) indices)"
    by (simp add: basis_faithful_def)
  then obtain s' where call: "sampler (one_hot (2 ^ m) j) indices s
      = (Inr (map (\<lambda>i. big_endian_int_to_digits m j ! i) indices), s')"
    by (cases "sampler (one_hot (2 ^ m) j) indices s") simp
  from Cons.IH [OF rest, of "(s', tr @ [Sampling])"] obtain st' where
    "sample_rows (\<lambda>v. sampler v indices) (map (one_hot (2 ^ m)) js) (s', tr @ [Sampling])
       = (Inr (map (\<lambda>j. [map (\<lambda>i. big_endian_int_to_digits m j ! i) indices]) js), st')"
    by blast
  with call st show ?case
    by (simp add: bind_action_def perform_def return_action_def)
qed

lemma squeeze_regular:
  assumes "xs \<noteq> []" and "length xs \<noteq> 1" and "\<forall>x\<in>set xs. length (g x) = k" and "k \<noteq> 1"
  shows "squeeze (map (\<lambda>x. [g x]) xs) = Arr2 (map g xs)"
proof -
  from assms(1) obtain x rest where xs: "xs = x # rest" by (cases xs) auto
  have r: "ncols (map (\<lambda>x. [g x]) xs) = 1" by (simp add: xs ncols_def)
  have k: "ncols (concat (map (\<lambda>x. [g x]) xs)) = k"
    using assms(3) by (simp add: xs ncols_def)
  have "map hd (map (\<lambda>x. [g x]) xs) = map g xs" by simp
  with r k assms(2,4) show ?thesis
    by (simp add: squeeze_def Let_def)
qed

lemma regular_correction:
  assumes faithful: "basis_faithful (sample_state_vector env)"
    and run: "fn_call executor circuit s = (Inr (MeasurementValue noisy), s1)"
    and idx: "qubit_indices noisy = [0..<length qubits]"
    and shots: "result noisy \<noteq> []" "length (result noisy) \<noteq> 1"
      "list_all (is_bit_vector (length qubits)) (result noisy)"
    and n: "length qubits \<noteq> 1"
    and m: "m \<noteq> []" "list_all (\<lambda>row. length row = 2 ^ length qubits) m"
    and g: "\<forall>shot\<in>set (result noisy). is_bit_vector (length qubits) (g shot)
        \<and> mat_vec m (one_hot (2 ^ length qubits) (big_endian_bits_to_int shot))
            = one_hot (2 ^ length qubits) (big_endian_bits_to_int (g shot))"
  shows "\<exists>st'. corrected_result env circuit executor qubits m (s, tr)
           = (Inr (noisy, noisy\<lparr>result := map g (result noisy)\<rparr>), st')"
proof -
  let ?n = "length qubits"
  let ?vs = "map (\<lambda>shot. one_hot (2 ^ ?n) (big_endian_bits_to_int shot)) (result noisy)"
  let ?js = "map (\<lambda>shot. big_endian_bits_to_int (g shot)) (result noisy)"
  have vs: "noisy_state_vectors ?n noisy = Inr ?vs"
    using shots(1,3) by (rule noisy_state_vectors_one_hot)
  have "adjusted_state_vectors m ?vs = Inr (map (mat_vec m) ?vs)"
  proof (rule adjusted_state_vectors_rowwise)
    show "m \<noteq> []" by (rule m(1))
    show "\<forall>r\<in>set m. length r = 2 ^ ?n" using m(2) by (simp add: list_all_iff)
    show "?vs \<noteq> []" using shots(1) by simp
    show "\<forall>v\<in>set ?vs. length v = 2 ^ ?n" by (simp add: one_hot_def)
    show "0 < (2::nat) ^ ?n" by simp
  qed
  moreover have "map (mat_vec m) ?vs = map (one_hot (2 ^ ?n)) ?js"
    using g by simp
  ultimately have adj: "adjusted_state_vectors m ?vs = Inr (map (one_hot (2 ^ ?n)) ?js)"
    by simp
  have js: "\<forall>j\<in>set ?js. j < 2 ^ ?n"
    using g by (auto simp add: big_endian_bits_to_int_bound)
  have indices: "list_all (\<lambda>i. i < ?n) [0..<?n]" "distinct [0..<?n]"
    by (simp_all add: list_all_iff)
  have digits: "\<And>shot. shot \<in> set (result noisy) \<Longrightarrow>
      map (\<lambda>i. big_endian_int_to_digits ?n (big_endian_bits_to_int (g shot)) ! i) [0..<?n] = g shot"
  proof -
    fix shot assume "shot \<in> set (result noisy)"
    with g have b: "is_bit_vector ?n (g shot)" by simp
    then have "big_endian_int_to_digits ?n (big_endian_bits_to_int (g shot)) = g shot"
      using digits_of_bits [of "g shot"] by (simp add: is_bit_vector_def)
    moreover have "length (g shot) = ?n" using b by (simp add: is_bit_vector_def)
    ultimately show "map (\<lambda>i. big_endian_int_to_digits ?n (big_endian_bits_to_int (g shot)) ! i)
        [0..<?n] = g shot"
      using map_nth [of "g shot"] by simp
  qed
  from sample_rows_faithful [OF faithful indices js, of "(s1, tr @ [Execution])"]
  obtain st' where "sample_rows (\<lambda>v. sample_state_vector env v [0..<?n])
        (map (one_hot (2 ^ ?n)) ?js) (s1, tr @ [Execution])
      = (Inr (map (\<lambda>j. [map (\<lambda>i. big_endian_int_to_digits ?n j ! i) [0..<?n]]) ?js), st')"
    by blast
  moreover have "map (\<lambda>j. [map (\<lambda>i. big_endian_int_to_digits ?n j ! i) [0..<?n]]) ?js
      = map (\<lambda>shot. [g shot]) (result noisy)"
    using digits by simp
  ultimately have rows: "sample_rows (\<lambda>v. sample_state_vector env v [0..<?n])
        (map (one_hot (2 ^ ?n)) ?js) (s1, tr @ [Execution])
      = (Inr (map (\<lambda>shot. [g shot]) (result noisy)), st')"
    by simp
  have sq: "squeeze (map (\<lambda>shot. [g shot]) (result noisy)) = Arr2 (map g (result noisy))"
  proof (rule squeeze_regular [OF shots(1,2) _ n])
    show "\<forall>x\<in>set (result noisy). length (g x) = ?n"
      using g by (simp add: is_bit_vector_def)
  qed
  have smp: "adjusted_result env [0..<?n] (map (one_hot (2 ^ ?n)) ?js) (s1, tr @ [Execution])
      = (Inr (Arr2 (map g (result noisy))), st')"
    using shots(1) rows sq
    by (simp add: adjusted_result_def apply_along_axis_sampling_def bind_action_def
        return_action_def)
  have mk: "MeasurementResult (Arr2 (map g (result noisy))) [0..<?n]
      = Inr (noisy\<lparr>result := map g (result noisy)\<rparr>)"
    using g idx by (simp add: MeasurementResult_def list_all_iff)
  have "corrected_result env circuit executor qubits m (s, tr)
      = (Inr (noisy, noisy\<lparr>result := map g (result noisy)\<rparr>), st')"
    by (simp only: corrected_result_unfold [OF run vs] adj idx bind_action_def smp
        lift_result_def mk return_action_def sum.case prod.case)
  then show ?thesis by blast
qed

lemma find_upt_first:
  assumes "P k" and "k < n" and "\<forall>i<k. \<not> P i"
  shows "find P [0..<n] = Some k"
  unfolding find_Some_iff
  using assms by (intro exI [of _ k]) simp

lemma basis_sampler_faithful: "basis_faithful basis_sampler"
  unfolding basis_faithful_def
proof (intro allI impI)
  fix m j :: nat and indices :: "nat list" and s :: nat
  assume a: "j < 2 ^ m \<and> list_all (\<lambda>i. i < m) indices \<and> distinct indices"
  let ?v = "one_hot (2 ^ m) j"
  have len: "length ?v = 2 ^ m" by (simp add: one_hot_def)
  have "m < (2::nat) ^ m" by (rule less_exp)
  then have bound: "m < Suc (2 ^ m)" by (rule less_SucI)
  have fm: "find (\<lambda>k. 2 ^ k = length ?v) [0..<Suc (length ?v)] = Some m"
    unfolding len
  proof (rule find_upt_first)
    show "(2::nat) ^ m = 2 ^ m" by simp
    show "m < Suc (2 ^ m)" by (rule bound)
    show "\<forall>i<m. (2::nat) ^ i \<noteq> 2 ^ m" by simp
  qed
  have fj: "find (\<lambda>k. ?v ! k \<noteq> 0) [0..<length ?v] = Some j"
    unfolding len
  proof (rule find_upt_first)
    show "one_hot (2 ^ m) j ! j \<noteq> 0" using a by (simp add: one_hot_def)
    show "j < 2 ^ m" using a by simp
    show "\<forall>i<j. \<not> one_hot (2 ^ m) j ! i \<noteq> 0" using a by (simp add: one_hot_def)
  qed
  show "fst (basis_sampler ?v indices s)
      = Inr (map (\<lambda>i. big_endian_int_to_digits m j ! i) indices)"
    unfolding basis_sampler_def fm fj using a by simp
qed

lemma identity_matrix_shape:
  "identity_matrix (2 ^ n) \<noteq> [] \<and> list_all (\<lambda>row. length row = 2 ^ n) (identity_matrix (2 ^ n))"
  by (simp add: identity_matrix_def one_hot_def list_all_iff)

lemma antidiagonal_matrix_shape:
  "antidiagonal_matrix (2 ^ n) \<noteq> []
     \<and> list_all (\<lambda>row. length row = 2 ^ n) (antidiagonal_matrix (2 ^ n))"
  by (simp add: antidiagonal_matrix_def one_hot_def list_all_iff)

lemma raw_execute_unfold:
  "fn_call executor circuit s = (Inr (MeasurementValue noisy), s1) \<Longrightarrow>
     raw_execute circuit executor observable (s, tr)
       = (expectation_from_measurements observable noisy, s1, tr @ [Execution])"
  by (simp add: raw_execute_def bind_action_def perform_def lift_result_def)

lemma identity_regular:
  assumes faithful: "basis_faithful (sample_state_vector env)"
    and run: "fn_call executor circuit s = (Inr (MeasurementValue noisy), s1)"
    and idx: "qubit_indices noisy = [0..<length (all_qubits env circuit)]"
    and shots: "result noisy \<noteq> []" "length (result noisy) \<noteq> 1"
      "list_all (is_bit_vector (length (all_qubits env circuit))) (result noisy)"
    and n: "length (all_qubits env circuit) \<noteq> 1"
  shows "fst (execute_with_rci env circuit executor observable
                (Some (identity_matrix (2 ^ length (all_qubits env circuit)))) p0 p1 (s, tr))
           = fst (raw_execute circuit executor observable (s, tr))"
proof -
  let ?qs = "all_qubits env circuit"
  let ?m = "identity_matrix (2 ^ length ?qs)"
  have g: "\<forall>shot\<in>set (result noisy). is_bit_vector (length ?qs) shot
        \<and> mat_vec ?m (one_hot (2 ^ length ?qs) (big_endian_bits_to_int shot))
            = one_hot (2 ^ length ?qs) (big_endian_bits_to_int shot)"
  proof
    fix shot assume "shot \<in> set (result noisy)"
    with shots(3) have "is_bit_vector (length ?qs) shot" by (simp add: list_all_iff)
    moreover have "mat_vec ?m (one_hot (2 ^ length ?qs) (big_endian_bits_to_int shot))
        = one_hot (2 ^ length ?qs) (big_endian_bits_to_int shot)"
      using mat_vec_identity [of "one_hot (2 ^ length ?qs) (big_endian_bits_to_int shot)"]
      by (simp add: one_hot_def)
    ultimately show "is_bit_vector (length ?qs) shot
        \<and> mat_vec ?m (one_hot (2 ^ length ?qs) (big_endian_bits_to_int shot))
            = one_hot (2 ^ length ?qs) (big_endian_bits_to_int shot)" by simp
  qed
  from identity_matrix_shape [of "length ?qs"] have m: "?m \<noteq> []"
    "list_all (\<lambda>row. length row = 2 ^ length ?qs) ?m" by simp_all
  from regular_correction [OF faithful run idx shots n m, of "\<lambda>shot. shot" tr] g
  obtain st' where "corrected_result env circuit executor ?qs ?m (s, tr)
      = (Inr (noisy, noisy\<lparr>result := map (\<lambda>shot. shot) (result noisy)\<rparr>), st')"
    by blast
  then have "corrected_result env circuit executor ?qs ?m (s, tr) = (Inr (noisy, noisy), st')"
    by simp
  then show ?thesis
    by (simp add: execute_with_rci_unfold matrix_stage_some raw_execute_unfold [OF run])
qed

lemma full_flip_regular:
  assumes faithful: "basis_faithful (sample_state_vector env)"
    and run: "fn_call executor circuit s = (Inr (MeasurementValue noisy), s1)"
    and idx: "qubit_indices noisy = [0..<length (all_qubits env circuit)]"
    and shots: "result noisy \<noteq> []" "length (result noisy) \<noteq> 1"
      "list_all (is_bit_vector (length (all_qubits env circuit))) (result noisy)"
    and n: "length (all_qubits env circuit) \<noteq> 1"
  shows "fst (execute_with_rci env circuit executor observable
                (Some (antidiagonal_matrix (2 ^ length (all_qubits env circuit)))) p0 p1 (s, tr))
           = expectation_from_measurements observable
               (noisy\<lparr>result := map flip_bits (result noisy)\<rparr>)"
proof -
  let ?qs = "all_qubits env circuit"
  let ?d = "(2::nat) ^ length ?qs"
  let ?m = "antidiagonal_matrix ?d"
  have g: "\<forall>shot\<in>set (result noisy). is_bit_vector (length ?qs) (flip_bits shot)
        \<and> mat_vec ?m (one_hot ?d (big_endian_bits_to_int shot))
            = one_hot ?d (big_endian_bits_to_int (flip_bits shot))"
  proof
    fix shot assume "shot \<in> set (result noisy)"
    with shots(3) have b: "is_bit_vector (length ?qs) shot" by (simp add: list_all_iff)
    then have len: "length shot = length ?qs" and bits: "list_all (\<lambda>b. b < 2) shot"
      by (simp_all add: is_bit_vector_def)
    have fb: "is_bit_vector (length ?qs) (flip_bits shot)"
      using len flip_bits_bits [of shot] by (simp add: is_bit_vector_def flip_bits_def)
    have "mat_vec ?m (one_hot ?d (big_endian_bits_to_int shot))
        = one_hot ?d (?d - 1 - big_endian_bits_to_int shot)"
      using big_endian_bits_to_int_bound [OF b] by (rule mat_vec_antidiagonal)
    also have "?d - 1 - big_endian_bits_to_int shot = big_endian_bits_to_int (flip_bits shot)"
      using bits_of_flipped [OF bits] by (simp add: len)
    finally show "is_bit_vector (length ?qs) (flip_bits shot)
        \<and> mat_vec ?m (one_hot ?d (big_endian_bits_to_int shot))
            = one_hot ?d (big_endian_bits_to_int (flip_bits shot))"
      using fb by simp
  qed
  from antidiagonal_matrix_shape [of "length ?qs"] have m: "?m \<noteq> []"
    "list_all (\<lambda>row. length row = ?d) ?m" by simp_all
  from regular_correction [OF faithful run idx shots n m, of flip_bits tr] g
  obtain st' where "corrected_result env circuit executor ?qs ?m (s, tr)
      = (Inr (noisy, noisy\<lparr>result := map flip_bits (result noisy)\<rparr>), st')"
    by blast
  then show ?thesis
    by (simp add: execute_with_rci_unfold matrix_stage_some)
qed

lemma flip_bits_involution: "list_all (\<lambda>b. b < 2) shot \<Longrightarrow> flip_bits (flip_bits shot) = shot"
  by (induction shot) (auto simp add: flip_bits_def)

text \<open>
  The order of the qubit indices matters: the state vector is built from the columns of the
  noisy result, and the sampler is asked for the positions named by the qubit indices. With
  the indices \<open>1, 0\<close> and the identity matrix the two columns come back exchanged.
\<close>

lemma test_identity_indices_exchanged:
  "corrected_result test_env [0, 1] (fixed_executor [[0, 1], [0, 1]] [1, 0]) [0, 1]
     (identity_matrix 4) (0, [])
   = (Inr (\<lparr>result = [[0, 1], [0, 1]], qubit_indices = [1, 0]\<rparr>,
           \<lparr>result = [[1, 0], [1, 0]], qubit_indices = [1, 0]\<rparr>),
      3, [Execution, Sampling, Sampling])"
  by code_simp

subsection \<open>A single shot, a single qubit\<close>

text \<open>
  \<^verbatim>\<open>squeeze\<close> drops every axis of length one, not only the axis of the single
  repetition: with one shot, or with one measured qubit, the array handed to
  \<^verbatim>\<open>MeasurementResult\<close> is no longer a sequence of bit vectors. So a call
  that returns a value had at least two shots and not exactly one measured qubit, whatever
  the sampler does.
\<close>

lemma squeeze_Arr2_width:
  assumes "squeeze samples = Arr2 rows" and "samples \<noteq> []" and "\<forall>x\<in>set samples. length x = 1"
  shows "ncols rows \<noteq> 1"
proof -
  from assms(2,3) have nc: "ncols samples = 1"
    by (cases samples) (simp_all add: ncols_def)
  from assms(2,3) obtain x xs where s: "samples = [x] # xs"
    by (cases samples) (auto simp add: length_Suc_conv)
  then have k: "ncols (concat samples) = length x" "ncols (map hd samples) = length x"
    by (simp_all add: ncols_def)
  from assms(1) nc have "rows = map hd samples" "ncols (concat samples) \<noteq> 1"
    by (simp_all add: squeeze_def Let_def split: if_splits)
  with k show ?thesis by simp
qed

lemma correction_needs_two_shots_two_qubits:
  assumes "corrected_result env circuit executor qubits m (s, tr) = (Inr (noisy, res), st')"
  shows "length (result noisy) \<noteq> 1 \<and> length (qubit_indices noisy) \<noteq> 1"
proof -
  from corrected_result_success [OF assms] obtain s1 vs adjusted arr where
    vs: "noisy_state_vectors (length qubits) noisy = Inr vs"
    and adj: "adjusted_state_vectors m vs = Inr adjusted"
    and smp: "adjusted_result env (qubit_indices noisy) adjusted (s1, tr @ [Execution]) = (Inr arr, st')"
    and mk: "MeasurementResult arr (qubit_indices noisy) = Inr res"
    by blast
  from noisy_state_vectors_shape [OF vs] have
    shape: "vs \<noteq> []" "length vs = length (result noisy)"
      "\<forall>v\<in>set vs. length v = 2 ^ length qubits"
    by simp_all
  have len_adj: "length adjusted = length vs"
    by (rule adjusted_state_vectors_length [OF adj shape(1) shape(3)]) simp
  from adjusted_result_success [OF smp] obtain samples where
    samples: "arr = squeeze samples" "length samples = length adjusted"
      "\<forall>x\<in>set samples. length x = 1" "adjusted \<noteq> []"
    by blast
  from MeasurementResult_success [OF mk] obtain rows where
    rows: "arr = Arr2 rows" "list_all (is_bit_vector (length (qubit_indices noisy))) rows"
    by blast
  from samples have ne: "samples \<noteq> []" by auto
  from rows(1) samples(1) have sq: "squeeze samples = Arr2 rows" by simp
  from squeeze_Arr2 [OF sq ne samples(3)] have r: "rows = map hd samples" "length samples \<noteq> 1"
    by simp_all
  from r(1) ne have "rows \<noteq> []" by simp
  with rows(2) have "ncols rows = length (qubit_indices noisy)"
    by (cases rows) (simp_all add: ncols_def is_bit_vector_def)
  with squeeze_Arr2_width [OF sq ne samples(3)] r(2) samples(2) len_adj shape(2)
  show ?thesis by simp
qed

lemma single_shot_never_returns:
  assumes "fn_call executor circuit s = (Inr (MeasurementValue noisy), s1)"
    and "length (result noisy) = 1 \<or> length (qubit_indices noisy) = 1"
  shows "\<exists>e. fst (execute_with_rci env circuit executor observable (Some m) p0 p1 (s, tr)) = Inl e"
proof (rule ccontr)
  assume "\<not> ?thesis"
  then obtain v where v:
    "fst (execute_with_rci env circuit executor observable (Some m) p0 p1 (s, tr)) = Inr v"
    by (cases "fst (execute_with_rci env circuit executor observable (Some m) p0 p1 (s, tr))") auto
  then obtain nr res st' where
    c: "corrected_result env circuit executor (all_qubits env circuit) m (s, tr) = (Inr (nr, res), st')"
    by (auto simp add: execute_with_rci_unfold matrix_stage_some split: sum.splits prod.splits)
  from corrected_result_success [OF c] assms(1) have "nr = noisy" by auto
  with correction_needs_two_shots_two_qubits [OF c] assms(2) show False by simp
qed

lemma test_identity_two_shots:
  "raw_execute [0, 1] (fixed_executor [[1, 1], [1, 1]] [0, 1]) (Some observable_ZI_IZ) (0, [])
     = (Inr (- 2), 1, [Execution])
   \<and> execute_with_rci test_env [0, 1] (fixed_executor [[1, 1], [1, 1]] [0, 1])
       (Some observable_ZI_IZ) (Some (identity_matrix 4)) (1 / 100) (1 / 100) (0, [])
     = (Inr (- 2), 3, [Execution, Sampling, Sampling])"
  by code_simp

lemma test_full_flip_two_shots:
  "raw_execute [0, 1] (fixed_executor [[0, 0], [0, 0]] [0, 1]) (Some observable_ZI_IZ) (0, [])
     = (Inr 2, 1, [Execution])
   \<and> execute_with_rci test_env [0, 1] (fixed_executor [[0, 0], [0, 0]] [0, 1])
       (Some observable_ZI_IZ) (Some (antidiagonal_matrix 4)) (1 / 100) (1 / 100) (0, [])
     = (Inr (- 2), 3, [Execution, Sampling, Sampling])"
  by code_simp

text \<open>
  C3 at a single shot. The executor is noiseless and returns the one shot \<open>11\<close> of the
  two-qubit circuit, the matrix is the identity: the unmitigated expectation value of
  \<open>Z\<otimes>I + I\<otimes>Z\<close> is \<open>-2\<close>, and \<^verbatim>\<open>execute_with_rci\<close> returns no
  value, it fails when the corrected result is built.
\<close>

theorem identity_single_shot:
  "raw_execute [0, 1] (fixed_executor [[1, 1]] [0, 1]) (Some observable_ZI_IZ) (0, [])
     = (Inr (- 2), 1, [Execution])
   \<and> execute_with_rci test_env [0, 1] (fixed_executor [[1, 1]] [0, 1])
       (Some observable_ZI_IZ) (Some (identity_matrix 4)) (1 / 100) (1 / 100) (0, [])
     = (Inl TypeError, 2, [Execution, Sampling])"
  by code_simp

text \<open>
  C4 at a single shot. The executor flips the one shot \<open>11\<close> of the two-qubit circuit to
  \<open>00\<close>, the matrix is the anti-diagonal permutation: the unmitigated expectation
  value of \<open>Z\<otimes>I + I\<otimes>Z\<close> is \<open>2\<close>, and \<^verbatim>\<open>execute_with_rci\<close> returns no
  value where \<open>-2\<close> is expected.
\<close>

theorem full_flip_single_shot:
  "raw_execute [0, 1] (fixed_executor [[0, 0]] [0, 1]) (Some observable_ZI_IZ) (0, [])
     = (Inr 2, 1, [Execution])
   \<and> execute_with_rci test_env [0, 1] (fixed_executor [[0, 0]] [0, 1])
       (Some observable_ZI_IZ) (Some (antidiagonal_matrix 4)) (1 / 100) (1 / 100) (0, [])
     = (Inl TypeError, 2, [Execution, Sampling])"
  by code_simp

end
